theory Spec2Isabelle
  imports Main
begin

section \<open>Announced-address and FFmpeg-path resolution of \<open>config.template.js\<close>\<close>

text \<open>
  The helper functions at the end of \<open>app/src/config.template.js\<close> (\<open>getIPv4\<close>,
  \<open>getLocalIPv4\<close>, \<open>scanAllInterfaces\<close>, \<open>findValidAddress\<close>, \<open>getFFmpegPath\<close>)
  are embedded as HOL functions. What the JavaScript reads from its surroundings is a
  parameter here: the module constants \<open>ANNOUNCED_IP\<close>, \<open>ENVIRONMENT\<close>, \<open>IS_DOCKER\<close>,
  the value of \<open>os.platform()\<close>, the object returned by \<open>os.networkInterfaces()\<close> and the
  outcome of \<open>fs.accessSync\<close> on a path.

  JavaScript strings are modelled as \<open>string\<close>. \<open>undefined\<close> and \<open>null\<close> are \<open>None\<close>.
\<close>

subsection \<open>JavaScript string primitives\<close>

text \<open>\<open>s.startsWith(p)\<close>.\<close>

definition startsWith :: "string \<Rightarrow> string \<Rightarrow> bool" where
  "startsWith s p = (take (length p) s = p)"

text \<open>
  \<open>s.includes(sub)\<close>: \<open>sub\<close> occurs in \<open>s\<close> as a contiguous run of characters. (The
  name carries a suffix because \<open>includes\<close> is a reserved word here.)
\<close>

fun includes_str :: "string \<Rightarrow> string \<Rightarrow> bool" where
  "includes_str [] sub = (sub = [])"
| "includes_str (c # cs) sub = (startsWith (c # cs) sub \<or> includes_str cs sub)"

text \<open>
  \<open>s.toLowerCase()\<close>, on the letters \<open>A\<close> to \<open>Z\<close>; every other character is kept. (Every
  fragment of \<open>VIRTUAL_INTERFACES\<close> is made of these letters.)
\<close>

definition toLowerChar :: "char \<Rightarrow> char" where
  "toLowerChar c =
     (case map_of (zip ''ABCDEFGHIJKLMNOPQRSTUVWXYZ'' ''abcdefghijklmnopqrstuvwxyz'') c of
        Some l \<Rightarrow> l
      | None \<Rightarrow> c)"

definition toLowerCase :: "string \<Rightarrow> string" where
  "toLowerCase s = map toLowerChar s"

text \<open>
  The truthiness test \<open>if (addr)\<close> on a value that is a string, \<open>undefined\<close> or \<open>null\<close>:
  the empty string is falsy, as \<open>undefined\<close> and \<open>null\<close> are.
\<close>

fun truthy :: "string option \<Rightarrow> bool" where
  "truthy None = False"
| "truthy (Some s) = (s \<noteq> [])"

subsection \<open>Data\<close>

text \<open>An entry of an interface's address array, with the three fields the code reads.\<close>

record AddressRecord =
  family :: string
  address :: string
  internal :: bool

text \<open>
  The object returned by \<open>os.networkInterfaces()\<close>, as the list of its entries in the order
  of \<open>Object.keys\<close> / \<open>Object.entries\<close>. A value may be \<open>undefined\<close>.
\<close>

type_synonym ifaces = "(string \<times> AddressRecord list option) list"

text \<open>\<open>ifaces[interfaceName]\<close>: \<open>undefined\<close> for a name that is not a key.\<close>

definition lookup :: "ifaces \<Rightarrow> string \<Rightarrow> AddressRecord list option" where
  "lookup ifs k = (case map_of ifs k of None \<Rightarrow> None | Some v \<Rightarrow> v)"

subsection \<open>\<open>findValidAddress\<close>\<close>

text \<open>The predicate handed to \<open>find\<close>.\<close>

definition isUsable :: "AddressRecord \<Rightarrow> bool" where
  "isUsable addr =
     (family addr = ''IPv4'' \<and> \<not> internal addr \<and> \<not> startsWith (address addr) ''169.254.'')"

text \<open>\<open>addresses?.find(...)?.address\<close>.\<close>

definition findValidAddress :: "AddressRecord list option \<Rightarrow> string option" where
  "findValidAddress addresses =
     (case addresses of
        None \<Rightarrow> None
      | Some as \<Rightarrow> (case find isUsable as of None \<Rightarrow> None | Some addr \<Rightarrow> Some (address addr)))"

subsection \<open>\<open>scanAllInterfaces\<close>\<close>

text \<open>\<open>excludes.some((ex) => name.toLowerCase().includes(ex.toLowerCase()))\<close>.\<close>

definition isExcluded :: "string list \<Rightarrow> string \<Rightarrow> bool" where
  "isExcluded excludes name =
     list_ex (\<lambda>ex. includes_str (toLowerCase name) (toLowerCase ex)) excludes"

fun scanAllInterfaces :: "ifaces \<Rightarrow> string list \<Rightarrow> string option" where
  "scanAllInterfaces [] excludes = None"
| "scanAllInterfaces ((name, addresses) # rest) excludes =
     (if isExcluded excludes name then scanAllInterfaces rest excludes
      else if truthy (findValidAddress addresses) then findValidAddress addresses
      else scanAllInterfaces rest excludes)"

subsection \<open>\<open>getLocalIPv4\<close>\<close>

text \<open>
  \<open>PRIORITY_CONFIG[platform] || []\<close>, the names of the entries. The platform is the
  string \<open>os.platform()\<close> returns (\<open>win32\<close>, \<open>darwin\<close>, \<open>linux\<close>, \<open>freebsd\<close>, ...); the
  three object literals of the code are looked up by their own keys.
\<close>

definition PRIORITY_CONFIG :: "string \<Rightarrow> string list" where
  "PRIORITY_CONFIG platform =
     (if platform = ''win32'' then [''Ethernet'', ''Wi-Fi'', ''Local Area Connection'']
      else if platform = ''darwin'' then [''en0'', ''en1'']
      else if platform = ''linux'' then [''eth0'', ''wlan0'']
      else [])"

definition VIRTUAL_INTERFACES_all :: "string list" where
  "VIRTUAL_INTERFACES_all = [''docker'', ''veth'', ''tun'', ''lo'']"

text \<open>\<open>VIRTUAL_INTERFACES[platform] || []\<close>.\<close>

definition VIRTUAL_INTERFACES :: "string \<Rightarrow> string list" where
  "VIRTUAL_INTERFACES platform =
     (if platform = ''win32'' then [''Virtual'', ''vEthernet'', ''Teredo'', ''Bluetooth'']
      else if platform = ''darwin'' then [''awdl'', ''bridge'', ''utun'']
      else if platform = ''linux'' then [''virbr'', ''kube'', ''cni'']
      else [])"

definition virtualExcludes :: "string \<Rightarrow> string list" where
  "virtualExcludes platform = VIRTUAL_INTERFACES_all @ VIRTUAL_INTERFACES platform"

text \<open>The interface names tried for one priority name.\<close>

definition matchingIfaces :: "string \<Rightarrow> ifaces \<Rightarrow> string \<Rightarrow> string list" where
  "matchingIfaces platform ifs ifName =
     (if platform = ''win32'' then filter (\<lambda>k. includes_str k ifName) (map fst ifs) else [ifName])"

text \<open>The inner loop: the first of the names whose interface gives a truthy address.\<close>

fun tryInterfaces :: "ifaces \<Rightarrow> string list \<Rightarrow> string option" where
  "tryInterfaces ifs [] = None"
| "tryInterfaces ifs (interfaceName # rest) =
     (if truthy (findValidAddress (lookup ifs interfaceName))
      then findValidAddress (lookup ifs interfaceName)
      else tryInterfaces ifs rest)"

text \<open>The outer loop over the priority names; \<open>None\<close> when the loop ends without a return.\<close>

fun priorityPass :: "string \<Rightarrow> ifaces \<Rightarrow> string list \<Rightarrow> string option" where
  "priorityPass platform ifs [] = None"
| "priorityPass platform ifs (ifName # rest) =
     (case tryInterfaces ifs (matchingIfaces platform ifs ifName) of
        Some addr \<Rightarrow> Some addr
      | None \<Rightarrow> priorityPass platform ifs rest)"

definition getLocalIPv4 :: "string \<Rightarrow> ifaces \<Rightarrow> string" where
  "getLocalIPv4 platform ifs =
     (case priorityPass platform ifs (PRIORITY_CONFIG platform) of
        Some addr \<Rightarrow> addr
      | None \<Rightarrow>
          (case scanAllInterfaces ifs (virtualExcludes platform) of
             Some fallbackAddress \<Rightarrow> if fallbackAddress \<noteq> [] then fallbackAddress else ''0.0.0.0''
           | None \<Rightarrow> ''0.0.0.0''))"

subsection \<open>\<open>getIPv4\<close>\<close>

definition getIPv4 :: "string \<Rightarrow> string \<Rightarrow> bool \<Rightarrow> string \<Rightarrow> ifaces \<Rightarrow> string" where
  "getIPv4 ANNOUNCED_IP ENVIRONMENT IS_DOCKER platform ifs =
     (if ANNOUNCED_IP \<noteq> [] then ANNOUNCED_IP
      else if ENVIRONMENT = ''development'' then
        (if IS_DOCKER then ''127.0.0.1'' else getLocalIPv4 platform ifs)
      else if ENVIRONMENT = ''production'' then ANNOUNCED_IP
      else getLocalIPv4 platform ifs)"

subsection \<open>\<open>getFFmpegPath\<close>\<close>

text \<open>\<open>fs.accessSync(path)\<close> returns nothing or throws.\<close>

datatype fs_error = ENOENT | EACCES

type_synonym accessSync = "string \<Rightarrow> fs_error + unit"

definition backslash :: string where
  "backslash = [CHR 0x5C]"

text \<open>\<open>paths[platform] || ['/usr/bin/ffmpeg']\<close>.\<close>

definition platformPaths :: "string \<Rightarrow> string list" where
  "platformPaths platform =
     (if platform = ''darwin'' then [''/usr/local/bin/ffmpeg'', ''/opt/homebrew/bin/ffmpeg'']
      else if platform = ''linux'' then [''/usr/bin/ffmpeg'', ''/usr/local/bin/ffmpeg'']
      else if platform = ''win32'' then
        [''C:'' @ backslash @ ''ffmpeg'' @ backslash @ ''bin'' @ backslash @ ''ffmpeg.exe'',
         ''C:'' @ backslash @ ''Program Files'' @ backslash @ ''ffmpeg'' @ backslash @ ''bin''
           @ backslash @ ''ffmpeg.exe'']
      else [''/usr/bin/ffmpeg''])"

text \<open>The \<open>for\<close> loop with its \<open>try\<close>/\<open>catch\<close>: a throw of \<open>accessSync\<close> moves on.\<close>

fun tryPaths :: "accessSync \<Rightarrow> string list \<Rightarrow> string option" where
  "tryPaths access [] = None"
| "tryPaths access (path # rest) =
     (case access path of Inr u \<Rightarrow> Some path | Inl e \<Rightarrow> tryPaths access rest)"

text \<open>\<open>xs[0]\<close>, which is \<open>undefined\<close> on an empty array.\<close>

fun index0 :: "'a list \<Rightarrow> 'a option" where
  "index0 [] = None"
| "index0 (x # xs) = Some x"

definition getFFmpegPath :: "string \<Rightarrow> accessSync \<Rightarrow> string option" where
  "getFFmpegPath platform access =
     (case tryPaths access (platformPaths platform) of
        Some path \<Rightarrow> Some path
      | None \<Rightarrow> index0 (platformPaths platform))"

subsection \<open>The calls, with what they read\<close>

text \<open>
  \<open>getLocalIPv4\<close> begins with \<open>const ifaces = os.networkInterfaces()\<close>, outside any
  \<open>try\<close>, and \<open>os.networkInterfaces()\<close> throws a system error when the query of the
  operating system fails. The definition \<open>getLocalIPv4\<close> above is the function from the
  table that was read; the definitions below take the outcome of the read instead, and
  give the error where the call throws. \<open>getIPv4\<close> reaches the read only on the branches
  that call \<open>getLocalIPv4\<close>.

  A platform string that names an inherited property of an object literal
  (\<open>constructor\<close>, \<open>toString\<close>, ...) makes \<open>VIRTUAL_INTERFACES[platform]\<close> and
  \<open>paths[platform]\<close> a value that is truthy and not iterable: the spread in
  \<open>getLocalIPv4\<close> and the \<open>for ... of\<close> in \<open>getFFmpegPath\<close>, which is outside the \<open>try\<close>,
  throw a \<open>TypeError\<close>. \<open>os.platform()\<close> returns no such string. The records of the table
  are as \<open>os.networkInterfaces()\<close> documents them, with a string as \<open>address\<close>.
\<close>

datatype js_error = SystemError | TypeError

definition objectPrototypeKeys :: "string list" where
  "objectPrototypeKeys =
     [''constructor'', ''__defineGetter__'', ''__defineSetter__'', ''hasOwnProperty'',
      ''__lookupGetter__'', ''__lookupSetter__'', ''isPrototypeOf'', ''propertyIsEnumerable'',
      ''toString'', ''valueOf'', ''__proto__'', ''toLocaleString'']"

definition getLocalIPv4_call :: "string \<Rightarrow> js_error + ifaces \<Rightarrow> js_error + string" where
  "getLocalIPv4_call platform networkInterfaces =
     (case networkInterfaces of
        Inl e \<Rightarrow> Inl e
      | Inr ifs \<Rightarrow>
          if platform \<in> set objectPrototypeKeys then Inl TypeError
          else Inr (getLocalIPv4 platform ifs))"

definition getIPv4_call ::
  "string \<Rightarrow> string \<Rightarrow> bool \<Rightarrow> string \<Rightarrow> js_error + ifaces \<Rightarrow> js_error + string" where
  "getIPv4_call ANNOUNCED_IP ENVIRONMENT IS_DOCKER platform networkInterfaces =
     (if ANNOUNCED_IP \<noteq> [] then Inr ANNOUNCED_IP
      else if ENVIRONMENT = ''development'' then
        (if IS_DOCKER then Inr ''127.0.0.1'' else getLocalIPv4_call platform networkInterfaces)
      else if ENVIRONMENT = ''production'' then Inr ANNOUNCED_IP
      else getLocalIPv4_call platform networkInterfaces)"

text \<open>The call of \<open>getFFmpegPath\<close>, with the \<open>TypeError\<close> of a non-iterable \<open>paths[platform]\<close>.\<close>

definition getFFmpegPath_call :: "string \<Rightarrow> accessSync \<Rightarrow> js_error + string option" where
  "getFFmpegPath_call platform access =
     (if platform \<in> set objectPrototypeKeys then Inl TypeError
      else Inr (getFFmpegPath platform access))"

subsection \<open>Notions of the specification\<close>

text \<open>
  The sequence of interface names the priority pass visits: for each priority name in
  turn, the names matched for it.
\<close>

definition priorityCandidates :: "string \<Rightarrow> ifaces \<Rightarrow> string list" where
  "priorityCandidates platform ifs =
     concat (map (matchingIfaces platform ifs) (PRIORITY_CONFIG platform))"






subsection \<open>Sample inputs\<close>

text \<open>A non-internal IPv4 record with the given address.\<close>

definition rec4 :: "string \<Rightarrow> AddressRecord" where
  "rec4 a = \<lparr>family = ''IPv4'', address = a, internal = False\<rparr>"

definition rec6 :: "string \<Rightarrow> AddressRecord" where
  "rec6 a = \<lparr>family = ''IPv6'', address = a, internal = False\<rparr>"

definition loopbackRec :: AddressRecord where
  "loopbackRec = \<lparr>family = ''IPv4'', address = ''127.0.0.1'', internal = True\<rparr>"

text \<open>A Linux host with a wired interface.\<close>

definition wiredTable :: ifaces where
  "wiredTable = [(''lo'', Some [loopbackRec]), (''eth0'', Some [rec4 ''192.168.1.5''])]"

text \<open>
  A Linux host whose \<open>eth0\<close> has only a link-local address, with an unlisted interface
  before \<open>wlan0\<close>.
\<close>

definition wifiTable :: ifaces where
  "wifiTable =
     [(''enp3s0'', Some [rec4 ''10.0.0.7'']),
      (''eth0'', Some [rec4 ''169.254.10.2'']),
      (''wlan0'', Some [rec6 ''fe80::1'', rec4 ''10.0.0.9''])]"

text \<open>A Linux host with a container bridge and an unlisted interface name.\<close>

definition dockerTable :: ifaces where
  "dockerTable =
     [(''lo'', Some [loopbackRec]),
      (''docker0'', Some [rec4 ''172.17.0.1'']),
      (''wlp2s0'', Some [rec6 ''fe80::1'', rec4 ''10.0.0.7''])]"

text \<open>A Windows host whose only interface is the virtual switch of WSL.\<close>

definition wslTable :: ifaces where
  "wslTable = [(''vEthernet (WSL)'', Some [rec4 ''172.28.112.1''])]"

text \<open>A file system without FFmpeg, and one with the Homebrew binary only.\<close>

definition noFFmpeg :: accessSync where
  "noFFmpeg path = Inl ENOENT"

definition homebrewOnly :: accessSync where
  "homebrewOnly path = (if path = ''/opt/homebrew/bin/ffmpeg'' then Inr () else Inl ENOENT)"

section \<open>Properties\<close>

subsection \<open>Auxiliary facts\<close>

lemma startsWith_iff: "startsWith s p \<longleftrightarrow> (\<exists>rest. s = p @ rest)"
  unfolding startsWith_def
proof
  assume "take (length p) s = p"
  then have "s = p @ drop (length p) s"
    by (metis append_take_drop_id)
  then show "\<exists>rest. s = p @ rest" ..
next
  assume "\<exists>rest. s = p @ rest"
  then show "take (length p) s = p" by auto
qed

lemma includes_str_iff: "includes_str s sub \<longleftrightarrow> (\<exists>pre post. s = pre @ sub @ post)"
proof (induction s)
  case Nil
  show ?case by auto
next
  case (Cons c cs)
  show ?case
  proof
    assume "includes_str (c # cs) sub"
    then consider "startsWith (c # cs) sub" | "includes_str cs sub" by auto
    then show "\<exists>pre post. c # cs = pre @ sub @ post"
    proof cases
      case 1
      then obtain rest where "c # cs = sub @ rest"
        using startsWith_iff by blast
      then have "c # cs = [] @ sub @ rest" by simp
      then show ?thesis by blast
    next
      case 2
      with Cons.IH obtain pre post where "cs = pre @ sub @ post" by blast
      then have "c # cs = (c # pre) @ sub @ post" by simp
      then show ?thesis by blast
    qed
  next
    assume "\<exists>pre post. c # cs = pre @ sub @ post"
    then obtain pre post where eq: "c # cs = pre @ sub @ post" by blast
    show "includes_str (c # cs) sub"
    proof (cases pre)
      case Nil
      with eq have "startsWith (c # cs) sub"
        using startsWith_iff by auto
      then show ?thesis by simp
    next
      case (Cons d pre')
      with eq have "cs = pre' @ sub @ post" by simp
      with Cons.IH show ?thesis by auto
    qed
  qed
qed

lemma isExcluded_iff:
  "isExcluded excludes name \<longleftrightarrow>
     (\<exists>ex \<in> set excludes. \<exists>pre post. toLowerCase name = pre @ toLowerCase ex @ post)"
  by (simp add: isExcluded_def list_ex_iff includes_str_iff)

lemma truthy_Some_ex: "truthy v \<Longrightarrow> \<exists>a. v = Some a \<and> a \<noteq> []"
  by (cases v) auto

lemma findValidAddress_SomeD:
  assumes "findValidAddress v = Some a"
  shows "\<exists>as r. v = Some as \<and> r \<in> set as \<and> isUsable r \<and> address r = a"
proof (cases v)
  case None
  with assms show ?thesis by (simp add: findValidAddress_def)
next
  case (Some as)
  with assms obtain r where f: "find isUsable as = Some r" and a: "address r = a"
    by (auto simp: findValidAddress_def split: option.splits)
  from f have "r \<in> set as" "isUsable r"
    by (auto simp: find_Some_iff)
  with Some a show ?thesis by blast
qed

lemma lookup_SomeD: "lookup ifs k = Some as \<Longrightarrow> (k, Some as) \<in> set ifs"
  by (auto simp: lookup_def split: option.splits dest: map_of_SomeD)

lemma tryInterfaces_SomeD:
  "tryInterfaces ifs ns = Some a \<Longrightarrow>
     \<exists>n \<in> set ns. findValidAddress (lookup ifs n) = Some a \<and> a \<noteq> []"
proof (induction ns)
  case Nil
  then show ?case by simp
next
  case (Cons n ns)
  show ?case
  proof (cases "truthy (findValidAddress (lookup ifs n))")
    case True
    with Cons.prems have "findValidAddress (lookup ifs n) = Some a" by simp
    with True show ?thesis by auto
  next
    case False
    with Cons show ?thesis by auto
  qed
qed

lemma priorityPass_SomeD:
  "priorityPass platform ifs names = Some a \<Longrightarrow>
     \<exists>ifName \<in> set names. \<exists>n \<in> set (matchingIfaces platform ifs ifName).
        findValidAddress (lookup ifs n) = Some a \<and> a \<noteq> []"
proof (induction names)
  case Nil
  then show ?case by simp
next
  case (Cons ifName names)
  show ?case
  proof (cases "tryInterfaces ifs (matchingIfaces platform ifs ifName)")
    case None
    with Cons show ?thesis by auto
  next
    case (Some b)
    with Cons.prems have "b = a" by simp
    with Some tryInterfaces_SomeD show ?thesis by fastforce
  qed
qed

lemma scanAllInterfaces_SomeD:
  "scanAllInterfaces ifs excludes = Some a \<Longrightarrow>
     \<exists>name addresses. (name, addresses) \<in> set ifs \<and> \<not> isExcluded excludes name
        \<and> findValidAddress addresses = Some a \<and> a \<noteq> []"
proof (induction ifs excludes rule: scanAllInterfaces.induct)
  case (1 excludes)
  then show ?case by simp
next
  case (2 name addresses rest excludes)
  show ?case
  proof (cases "isExcluded excludes name")
    case True
    with 2 show ?thesis by auto
  next
    case False
    show ?thesis
    proof (cases "truthy (findValidAddress addresses)")
      case True
      with False "2.prems" have "findValidAddress addresses = Some a" by simp
      with True False show ?thesis by auto
    next
      case nt: False
      with False 2 show ?thesis by auto
    qed
  qed
qed

text \<open>
  Where the result of \<open>getLocalIPv4\<close> comes from: the sentinel, or the address of a record
  of the table that passes the validator.
\<close>

lemma getLocalIPv4_provenance:
  "getLocalIPv4 platform ifs = ''0.0.0.0'' \<or>
   (\<exists>name as r. (name, Some as) \<in> set ifs \<and> r \<in> set as \<and> isUsable r
       \<and> address r = getLocalIPv4 platform ifs)"
proof (cases "getLocalIPv4 platform ifs = ''0.0.0.0''")
  case True
  then show ?thesis by simp
next
  case ns: False
  let ?a = "getLocalIPv4 platform ifs"
  have "\<exists>v. findValidAddress v = Some ?a
          \<and> (\<forall>as. v = Some as \<longrightarrow> (\<exists>name. (name, Some as) \<in> set ifs))"
  proof (cases "priorityPass platform ifs (PRIORITY_CONFIG platform)")
    case (Some a)
    then have "?a = a" by (simp add: getLocalIPv4_def)
    moreover from Some obtain n where "findValidAddress (lookup ifs n) = Some a"
      using priorityPass_SomeD by blast
    ultimately show ?thesis using lookup_SomeD by metis
  next
    case None
    with ns obtain a where s: "scanAllInterfaces ifs (virtualExcludes platform) = Some a"
      and "?a = a"
      by (auto simp: getLocalIPv4_def split: option.splits if_splits)
    then show ?thesis using scanAllInterfaces_SomeD[OF s] by metis
  qed
  then obtain v where v: "findValidAddress v = Some ?a"
    and src: "\<forall>as. v = Some as \<longrightarrow> (\<exists>name. (name, Some as) \<in> set ifs)" by blast
  from findValidAddress_SomeD[OF v] obtain as r where
    "v = Some as" "r \<in> set as" "isUsable r" "address r = ?a" by blast
  with src show ?thesis by blast
qed

subsection \<open>The address validator\<close>

text \<open>
  Claim C5. For every address record, the test that \<open>findValidAddress\<close> hands to \<open>find\<close>
  holds if and only if the family is \<open>IPv4\<close>, the record is not internal and the address
  does not begin with \<open>169.254.\<close>. So it fails for every record of family \<open>IPv6\<close>, for every
  internal record and for every link-local address, and \<open>findValidAddress\<close> on a single
  record gives its address exactly when the test holds.
\<close>

theorem isUsable_iff:
  "(isUsable r \<longleftrightarrow>
      family r = ''IPv4'' \<and> \<not> internal r \<and> \<not> (\<exists>rest. address r = ''169.254.'' @ rest))
   \<and> (family r = ''IPv6'' \<longrightarrow> \<not> isUsable r)
   \<and> (internal r \<longrightarrow> \<not> isUsable r)
   \<and> (startsWith (address r) ''169.254.'' \<longrightarrow> \<not> isUsable r)
   \<and> findValidAddress (Some [r]) = (if isUsable r then Some (address r) else None)"
proof -
  have "isUsable r \<longleftrightarrow>
      family r = ''IPv4'' \<and> \<not> internal r \<and> \<not> (\<exists>rest. address r = ''169.254.'' @ rest)"
    unfolding isUsable_def startsWith_iff by simp
  moreover have "family r = ''IPv6'' \<longrightarrow> \<not> isUsable r"
    by (simp add: isUsable_def)
  moreover have "internal r \<longrightarrow> \<not> isUsable r"
    by (simp add: isUsable_def)
  moreover have "startsWith (address r) ''169.254.'' \<longrightarrow> \<not> isUsable r"
    by (simp add: isUsable_def)
  moreover have "findValidAddress (Some [r]) = (if isUsable r then Some (address r) else None)"
    by (simp add: findValidAddress_def)
  ultimately show ?thesis by blast
qed

text \<open>
  The validator on an ordinary address, an IPv6 record, the loopback record and a
  link-local address.
\<close>

theorem isUsable_iff_witness:
  "isUsable (rec4 ''192.168.1.5'') \<and> \<not> isUsable (rec6 ''fe80::1'')
   \<and> \<not> isUsable loopbackRec \<and> \<not> isUsable (rec4 ''169.254.10.2'')"
proof -
  have "family (rec6 ''fe80::1'') = ''IPv6''" "internal loopbackRec"
    "startsWith (address (rec4 ''169.254.10.2'')) ''169.254.''"
    by (simp_all add: rec6_def loopbackRec_def rec4_def startsWith_def)
  moreover have "family (rec4 ''192.168.1.5'') = ''IPv4''" "\<not> internal (rec4 ''192.168.1.5'')"
    "\<not> (\<exists>rest. address (rec4 ''192.168.1.5'') = ''169.254.'' @ rest)"
    by (simp_all add: rec4_def)
  ultimately show ?thesis
    using isUsable_iff [of "rec4 ''192.168.1.5''"] isUsable_iff [of "rec6 ''fe80::1''"]
      isUsable_iff [of loopbackRec] isUsable_iff [of "rec4 ''169.254.10.2''"]
    by blast
qed

subsection \<open>The override and the production branch\<close>

text \<open>
  Claim C1. For every non-empty override, \<open>getIPv4\<close> returns exactly the override,
  whatever the environment mode, the container flag, the platform and the interface
  table are.
\<close>

theorem getIPv4_override:
  "ANNOUNCED_IP \<noteq> [] \<Longrightarrow>
     getIPv4 ANNOUNCED_IP ENVIRONMENT IS_DOCKER platform ifs = ANNOUNCED_IP"
  by (simp add: getIPv4_def)

text \<open>An override on a host whose scan would give another address.\<close>

theorem getIPv4_override_witness:
  "''203.0.113.7'' \<noteq> [] \<and> getLocalIPv4 ''linux'' wiredTable = ''192.168.1.5''
   \<and> getIPv4 ''203.0.113.7'' ''development'' False ''linux'' wiredTable = ''203.0.113.7''"
proof -
  have ne: "''203.0.113.7'' \<noteq> []" by simp
  have "getLocalIPv4 ''linux'' wiredTable = ''192.168.1.5''" by code_simp
  with ne getIPv4_override [OF ne, of "''development''" False "''linux''" wiredTable]
  show ?thesis by simp
qed

text \<open>
  Claim C2. With an empty override in production mode, \<open>getIPv4\<close> returns the override as
  it is, the empty string, for every container flag, platform and interface table: neither
  a scanned address nor the sentinel.
\<close>

theorem getIPv4_production_empty:
  "getIPv4 [] ''production'' IS_DOCKER platform ifs = []
   \<and> getIPv4 [] ''production'' IS_DOCKER platform ifs \<noteq> ''0.0.0.0''"
  by (simp add: getIPv4_def)

subsection \<open>Soundness of the scan\<close>

text \<open>
  Claim C10. Whenever \<open>getLocalIPv4\<close> returns something other than the sentinel
  \<open>0.0.0.0\<close>, the result is the address of a record of the input table whose family is
  \<open>IPv4\<close>, that is not internal and whose address does not begin with \<open>169.254.\<close>.
\<close>

theorem getLocalIPv4_sound:
  assumes "getLocalIPv4 platform ifs \<noteq> ''0.0.0.0''"
  shows "\<exists>name as r. (name, Some as) \<in> set ifs \<and> r \<in> set as
           \<and> address r = getLocalIPv4 platform ifs
           \<and> family r = ''IPv4'' \<and> \<not> internal r \<and> \<not> startsWith (address r) ''169.254.''"
  using assms getLocalIPv4_provenance [of platform ifs] unfolding isUsable_def by blast

text \<open>The table with a container bridge: the address found is the one of \<open>wlp2s0\<close>.\<close>

theorem getLocalIPv4_sound_witness:
  "getLocalIPv4 ''linux'' dockerTable \<noteq> ''0.0.0.0''
   \<and> (\<exists>name as r. (name, Some as) \<in> set dockerTable \<and> r \<in> set as
         \<and> address r = ''10.0.0.7''
         \<and> family r = ''IPv4'' \<and> \<not> internal r \<and> \<not> startsWith (address r) ''169.254.'')"
proof -
  have v: "getLocalIPv4 ''linux'' dockerTable = ''10.0.0.7''" by code_simp
  then have h: "getLocalIPv4 ''linux'' dockerTable \<noteq> ''0.0.0.0''" by simp
  from getLocalIPv4_sound [OF h] v h show ?thesis by simp
qed

subsection \<open>The priority pass\<close>

lemma tryInterfaces_append:
  "tryInterfaces ifs (xs @ ys) =
     (case tryInterfaces ifs xs of Some a \<Rightarrow> Some a | None \<Rightarrow> tryInterfaces ifs ys)"
  by (induction xs) (auto split: option.splits)

lemma priorityPass_concat:
  "priorityPass platform ifs names =
     tryInterfaces ifs (concat (map (matchingIfaces platform ifs) names))"
  by (induction names) (auto simp: tryInterfaces_append split: option.splits)

lemma tryInterfaces_None:
  "\<forall>m \<in> set ns. \<not> truthy (findValidAddress (lookup ifs m)) \<Longrightarrow> tryInterfaces ifs ns = None"
  by (induction ns) auto

lemma tryInterfaces_first:
  assumes "\<forall>m \<in> set pre. \<not> truthy (findValidAddress (lookup ifs m))"
    and "findValidAddress (lookup ifs n) = Some a" and "a \<noteq> []"
  shows "tryInterfaces ifs (pre @ n # post) = Some a"
  using assms by (simp add: tryInterfaces_append tryInterfaces_None)

lemma priority_pass_first_truthy:
  assumes "\<exists>n \<in> set (priorityCandidates platform ifs).
             truthy (findValidAddress (lookup ifs n))"
  shows "\<exists>pre n post a. priorityCandidates platform ifs = pre @ n # post
           \<and> (\<forall>m \<in> set pre. \<not> truthy (findValidAddress (lookup ifs m)))
           \<and> findValidAddress (lookup ifs n) = Some a \<and> a \<noteq> []
           \<and> priorityPass platform ifs (PRIORITY_CONFIG platform) = Some a
           \<and> getLocalIPv4 platform ifs = a"
proof -
  from split_list_first_prop [OF assms] obtain pre n post where
    sp: "priorityCandidates platform ifs = pre @ n # post"
    and t: "truthy (findValidAddress (lookup ifs n))"
    and pre: "\<forall>m \<in> set pre. \<not> truthy (findValidAddress (lookup ifs m))" by blast
  from truthy_Some_ex [OF t] obtain a where
    a: "findValidAddress (lookup ifs n) = Some a" "a \<noteq> []" by blast
  have pp: "priorityPass platform ifs (PRIORITY_CONFIG platform) = Some a"
    using tryInterfaces_first [OF pre a] sp
    by (simp add: priorityPass_concat priorityCandidates_def)
  then have "getLocalIPv4 platform ifs = a"
    by (simp add: getLocalIPv4_def)
  with sp pre a pp show ?thesis by blast
qed

text \<open>
  On a table whose usable records carry non-empty addresses, as the tables of
  \<open>os.networkInterfaces()\<close> do, what \<open>findValidAddress\<close> gives for an interface is truthy
  exactly when the interface has a usable record.
\<close>

lemma findValidAddress_usable:
  assumes "r \<in> set as" "isUsable r"
  shows "\<exists>a. findValidAddress (Some as) = Some a"
proof (cases "find isUsable as")
  case None
  with assms show ?thesis by (auto simp: find_None_iff)
next
  case (Some r')
  then show ?thesis by (simp add: findValidAddress_def)
qed

lemma truthy_findValidAddress:
  assumes "\<forall>name as r. (name, Some as) \<in> set ifs \<and> r \<in> set as \<and> isUsable r
             \<longrightarrow> address r \<noteq> []"
  shows "truthy (findValidAddress (lookup ifs n)) \<longleftrightarrow> findValidAddress (lookup ifs n) \<noteq> None"
proof
  assume "truthy (findValidAddress (lookup ifs n))"
  then show "findValidAddress (lookup ifs n) \<noteq> None"
    by (auto dest: truthy_Some_ex)
next
  assume "findValidAddress (lookup ifs n) \<noteq> None"
  then obtain a where a: "findValidAddress (lookup ifs n) = Some a" by blast
  from findValidAddress_SomeD [OF a] obtain as r where
    "lookup ifs n = Some as" "r \<in> set as" "isUsable r" "address r = a" by blast
  moreover from this have "(n, Some as) \<in> set ifs" by (simp add: lookup_SomeD)
  ultimately have "a \<noteq> []" using assms by blast
  with a show "truthy (findValidAddress (lookup ifs n))" by simp
qed

text \<open>
  Claim C3. For every platform and every interface table whose usable records carry
  non-empty addresses: if some interface visited by the priority pass has an address
  that satisfies the validator, then \<open>getLocalIPv4\<close> returns the result of the priority
  pass, so the exhaustive pass contributes nothing. That result is the address
  \<open>findValidAddress\<close> gives for the first visited interface that has a usable address, in
  the order of the visit (the priority names in their listed order, and for each the
  names matched for it): no name after it is tried.
\<close>

theorem priority_pass_wins:
  assumes "\<forall>name as r. (name, Some as) \<in> set ifs \<and> r \<in> set as \<and> isUsable r
             \<longrightarrow> address r \<noteq> []"
    and "\<exists>n \<in> set (priorityCandidates platform ifs).
           \<exists>as r. lookup ifs n = Some as \<and> r \<in> set as \<and> isUsable r"
  shows "\<exists>pre n post a. priorityCandidates platform ifs = pre @ n # post
           \<and> (\<forall>m \<in> set pre. findValidAddress (lookup ifs m) = None)
           \<and> findValidAddress (lookup ifs n) = Some a
           \<and> priorityPass platform ifs (PRIORITY_CONFIG platform) = Some a
           \<and> getLocalIPv4 platform ifs = a"
proof -
  note tr = truthy_findValidAddress [OF assms(1)]
  from assms(2) obtain n as r where
    n: "n \<in> set (priorityCandidates platform ifs)"
    and l: "lookup ifs n = Some as" and r: "r \<in> set as" "isUsable r" by blast
  from findValidAddress_usable [OF r] l
  have "findValidAddress (lookup ifs n) \<noteq> None" by simp
  with tr have "truthy (findValidAddress (lookup ifs n))" by simp
  with n have "\<exists>n \<in> set (priorityCandidates platform ifs).
                 truthy (findValidAddress (lookup ifs n))" by blast
  from priority_pass_first_truthy [OF this] obtain pre k post a where
    sp: "priorityCandidates platform ifs = pre @ k # post"
    and pre: "\<forall>m \<in> set pre. \<not> truthy (findValidAddress (lookup ifs m))"
    and a: "findValidAddress (lookup ifs k) = Some a"
    and res: "priorityPass platform ifs (PRIORITY_CONFIG platform) = Some a"
      "getLocalIPv4 platform ifs = a" by blast
  from pre tr have "\<forall>m \<in> set pre. findValidAddress (lookup ifs m) = None" by simp
  with sp a res show ?thesis by blast
qed

text \<open>
  A Linux host where \<open>eth0\<close> has only a link-local address and \<open>wlan0\<close> has \<open>10.0.0.9\<close>:
  that address is returned, although the exhaustive pass alone would give \<open>10.0.0.7\<close>.
\<close>

theorem priority_pass_wins_witness:
  "wifiTable =
     [(''enp3s0'', Some [rec4 ''10.0.0.7'']),
      (''eth0'', Some [rec4 ''169.254.10.2'']),
      (''wlan0'', Some [rec6 ''fe80::1'', rec4 ''10.0.0.9''])]
   \<and> priorityCandidates ''linux'' wifiTable = [''eth0'', ''wlan0'']
   \<and> findValidAddress (lookup wifiTable ''eth0'') = None
   \<and> lookup wifiTable ''wlan0'' = Some [rec6 ''fe80::1'', rec4 ''10.0.0.9'']
   \<and> isUsable (rec4 ''10.0.0.9'')
   \<and> getLocalIPv4 ''linux'' wifiTable = ''10.0.0.9''
   \<and> scanAllInterfaces wifiTable (virtualExcludes ''linux'') = Some ''10.0.0.7''"
proof -
  have w: "wifiTable =
     [(''enp3s0'', Some [rec4 ''10.0.0.7'']),
      (''eth0'', Some [rec4 ''169.254.10.2'']),
      (''wlan0'', Some [rec6 ''fe80::1'', rec4 ''10.0.0.9''])]"
    by (simp add: wifiTable_def)
  have ne: "\<forall>name as r. (name, Some as) \<in> set wifiTable \<and> r \<in> set as \<and> isUsable r
             \<longrightarrow> address r \<noteq> []"
    unfolding w by (auto simp: rec4_def rec6_def)
  have c: "priorityCandidates ''linux'' wifiTable = [''eth0'', ''wlan0'']" by code_simp
  have e0: "findValidAddress (lookup wifiTable ''eth0'') = None" by code_simp
  have l: "lookup wifiTable ''wlan0'' = Some [rec6 ''fe80::1'', rec4 ''10.0.0.9'']"
    by code_simp
  have u: "isUsable (rec4 ''10.0.0.9'')" by code_simp
  have h: "\<exists>n \<in> set (priorityCandidates ''linux'' wifiTable).
             \<exists>as r. lookup wifiTable n = Some as \<and> r \<in> set as \<and> isUsable r"
  proof -
    have "''wlan0'' \<in> set (priorityCandidates ''linux'' wifiTable)"
      using c by simp
    moreover have "rec4 ''10.0.0.9'' \<in> set [rec6 ''fe80::1'', rec4 ''10.0.0.9'']"
      by simp
    ultimately show ?thesis using l u by blast
  qed
  from priority_pass_wins [OF ne h] obtain a where
    "priorityPass ''linux'' wifiTable (PRIORITY_CONFIG ''linux'') = Some a"
    "getLocalIPv4 ''linux'' wifiTable = a" by blast
  moreover have "priorityPass ''linux'' wifiTable (PRIORITY_CONFIG ''linux'') = Some ''10.0.0.9''"
    by code_simp
  ultimately have res: "getLocalIPv4 ''linux'' wifiTable = ''10.0.0.9''" by simp
  have ex: "scanAllInterfaces wifiTable (virtualExcludes ''linux'') = Some ''10.0.0.7''"
    by code_simp
  from w c e0 l u res ex show ?thesis by blast
qed

text \<open>
  Claim C9. The excluded fragments play no part in the priority pass. On \<open>win32\<close>, the
  interface \<open>vEthernet (WSL)\<close> is matched by the priority name \<open>Ethernet\<close>, as a substring,
  and the scan returns its address, although the name contains the excluded fragment
  \<open>vEthernet\<close> and the exhaustive pass skips the interface.
\<close>

theorem priority_pass_ignores_excludes:
  "includes_str ''vEthernet (WSL)'' ''Ethernet''
   \<and> ''vEthernet'' \<in> set (virtualExcludes ''win32'')
   \<and> includes_str (toLowerCase ''vEthernet (WSL)'') (toLowerCase ''vEthernet'')
   \<and> isExcluded (virtualExcludes ''win32'') ''vEthernet (WSL)''
   \<and> matchingIfaces ''win32'' wslTable ''Ethernet'' = [''vEthernet (WSL)'']
   \<and> priorityPass ''win32'' wslTable (PRIORITY_CONFIG ''win32'') = Some ''172.28.112.1''
   \<and> getLocalIPv4 ''win32'' wslTable = ''172.28.112.1''
   \<and> scanAllInterfaces wslTable (virtualExcludes ''win32'') = None"
  by code_simp

subsection \<open>The exhaustive pass\<close>

lemma scanAllInterfaces_filter:
  "scanAllInterfaces ifs excludes =
     scanAllInterfaces (filter (\<lambda>(name, addresses). \<not> isExcluded excludes name) ifs) excludes"
  by (induction ifs excludes rule: scanAllInterfaces.induct) auto

text \<open>
  Claim C4. For every interface table and platform, the exhaustive pass with the
  platform's fragments and the global ones gives the same result as on the table with
  every excluded interface removed, and an address it returns is the one
  \<open>findValidAddress\<close> gives for an interface of the table whose lower-cased name contains
  no lower-cased fragment of \<open>docker\<close>, \<open>veth\<close>, \<open>tun\<close>, \<open>lo\<close> and the platform's list.
\<close>

theorem scanAllInterfaces_never_excluded:
  "scanAllInterfaces ifs (virtualExcludes platform) =
     scanAllInterfaces
       (filter (\<lambda>(name, addresses). \<not> isExcluded (virtualExcludes platform) name) ifs)
       (virtualExcludes platform)
   \<and> (\<forall>a. scanAllInterfaces ifs (virtualExcludes platform) = Some a \<longrightarrow>
         (\<exists>name addresses. (name, addresses) \<in> set ifs
            \<and> findValidAddress addresses = Some a
            \<and> (\<forall>ex \<in> set ([''docker'', ''veth'', ''tun'', ''lo''] @ VIRTUAL_INTERFACES platform).
                  \<not> (\<exists>pre post. toLowerCase name = pre @ toLowerCase ex @ post))))"
proof (intro conjI allI impI)
  show "scanAllInterfaces ifs (virtualExcludes platform) =
     scanAllInterfaces
       (filter (\<lambda>(name, addresses). \<not> isExcluded (virtualExcludes platform) name) ifs)
       (virtualExcludes platform)"
    by (rule scanAllInterfaces_filter)
next
  fix a
  assume "scanAllInterfaces ifs (virtualExcludes platform) = Some a"
  from scanAllInterfaces_SomeD [OF this] obtain name addresses where
    "(name, addresses) \<in> set ifs" "\<not> isExcluded (virtualExcludes platform) name"
    "findValidAddress addresses = Some a" by blast
  then show "\<exists>name addresses. (name, addresses) \<in> set ifs
            \<and> findValidAddress addresses = Some a
            \<and> (\<forall>ex \<in> set ([''docker'', ''veth'', ''tun'', ''lo''] @ VIRTUAL_INTERFACES platform).
                  \<not> (\<exists>pre post. toLowerCase name = pre @ toLowerCase ex @ post))"
    unfolding isExcluded_iff virtualExcludes_def VIRTUAL_INTERFACES_all_def by blast
qed

text \<open>
  The table with a container bridge on Linux: \<open>docker0\<close> comes first and has a usable
  address, and the address returned is the one of \<open>wlp2s0\<close>.
\<close>

theorem scanAllInterfaces_never_excluded_witness:
  "scanAllInterfaces dockerTable (virtualExcludes ''linux'') = Some ''10.0.0.7''
   \<and> findValidAddress (Some [rec4 ''172.17.0.1'']) = Some ''172.17.0.1''
   \<and> (\<exists>name addresses. (name, addresses) \<in> set dockerTable
         \<and> findValidAddress addresses = Some ''10.0.0.7''
         \<and> (\<forall>ex \<in> set ([''docker'', ''veth'', ''tun'', ''lo''] @ VIRTUAL_INTERFACES ''linux'').
               \<not> (\<exists>pre post. toLowerCase name = pre @ toLowerCase ex @ post)))"
proof -
  have s: "scanAllInterfaces dockerTable (virtualExcludes ''linux'') = Some ''10.0.0.7''"
    by code_simp
  have d: "findValidAddress (Some [rec4 ''172.17.0.1'']) = Some ''172.17.0.1''"
    by code_simp
  from scanAllInterfaces_never_excluded [of dockerTable "''linux''"] s d
  show ?thesis by blast
qed

subsection \<open>The FFmpeg path\<close>

lemma platformPaths_nonempty: "\<exists>p rest. platformPaths platform = p # rest \<and> p \<noteq> []"
  by (simp add: platformPaths_def)

lemma platformPaths_all_nonempty: "p \<in> set (platformPaths platform) \<Longrightarrow> p \<noteq> []"
  by (auto simp: platformPaths_def split: if_splits)

lemma tryPaths_first:
  "\<forall>q \<in> set pre. access q \<noteq> Inr () \<Longrightarrow> access p = Inr () \<Longrightarrow>
     tryPaths access (pre @ p # post) = Some p"
  by (induction pre) (auto split: sum.splits)

lemma tryPaths_None:
  "\<forall>q \<in> set ps. access q \<noteq> Inr () \<Longrightarrow> tryPaths access ps = None"
  by (induction ps) (auto split: sum.splits)

lemma tryPaths_SomeD: "tryPaths access ps = Some p \<Longrightarrow> p \<in> set ps"
  by (induction ps) (auto split: sum.splits)

lemma getFFmpegPath_defined: "\<exists>p. getFFmpegPath platform access = Some p \<and> p \<noteq> []"
proof (cases "tryPaths access (platformPaths platform)")
  case None
  then show ?thesis
    using platformPaths_nonempty [of platform] by (auto simp: getFFmpegPath_def)
next
  case (Some p)
  then show ?thesis
    using tryPaths_SomeD [OF Some] platformPaths_all_nonempty by (auto simp: getFFmpegPath_def)
qed

text \<open>
  Claim C6. For every platform, \<open>getFFmpegPath\<close> returns the first path of the platform's
  list, in the listed order, on which \<open>fs.accessSync\<close> does not throw. When it throws on
  every path of the list, the result is still the first path of the list, a non-empty
  string, and it is a path that did not pass the check.
\<close>

theorem getFFmpegPath_first_existing:
  "(\<forall>pre p post. platformPaths platform = pre @ p # post
        \<and> (\<forall>q \<in> set pre. access q \<noteq> Inr ()) \<and> access p = Inr ()
      \<longrightarrow> getFFmpegPath platform access = Some p)
   \<and> ((\<forall>q \<in> set (platformPaths platform). access q \<noteq> Inr ())
      \<longrightarrow> (\<exists>p rest. platformPaths platform = p # rest
             \<and> getFFmpegPath platform access = Some p \<and> p \<noteq> [] \<and> access p \<noteq> Inr ()))"
proof (intro conjI allI impI)
  fix pre p post
  assume "platformPaths platform = pre @ p # post
        \<and> (\<forall>q \<in> set pre. access q \<noteq> Inr ()) \<and> access p = Inr ()"
  then show "getFFmpegPath platform access = Some p"
    by (simp add: getFFmpegPath_def tryPaths_first)
next
  assume none: "\<forall>q \<in> set (platformPaths platform). access q \<noteq> Inr ()"
  obtain p rest where pr: "platformPaths platform = p # rest" "p \<noteq> []"
    using platformPaths_nonempty by blast
  from none have "getFFmpegPath platform access = index0 (platformPaths platform)"
    by (simp add: getFFmpegPath_def tryPaths_None)
  with pr none show "\<exists>p rest. platformPaths platform = p # rest
             \<and> getFFmpegPath platform access = Some p \<and> p \<noteq> [] \<and> access p \<noteq> Inr ()"
    by auto
qed

text \<open>
  On \<open>darwin\<close>: with the Homebrew binary only, the second path is returned; with no
  binary at all, the first path, \<open>/usr/local/bin/ffmpeg\<close>.
\<close>

theorem getFFmpegPath_first_existing_witness:
  "platformPaths ''darwin'' = [''/usr/local/bin/ffmpeg''] @ ''/opt/homebrew/bin/ffmpeg'' # []
   \<and> homebrewOnly ''/usr/local/bin/ffmpeg'' = Inl ENOENT
   \<and> homebrewOnly ''/opt/homebrew/bin/ffmpeg'' = Inr ()
   \<and> getFFmpegPath ''darwin'' homebrewOnly = Some ''/opt/homebrew/bin/ffmpeg''
   \<and> noFFmpeg ''/usr/local/bin/ffmpeg'' = Inl ENOENT
   \<and> noFFmpeg ''/opt/homebrew/bin/ffmpeg'' = Inl ENOENT
   \<and> getFFmpegPath ''darwin'' noFFmpeg = Some ''/usr/local/bin/ffmpeg''"
proof -
  have sp: "platformPaths ''darwin'' = [''/usr/local/bin/ffmpeg''] @ ''/opt/homebrew/bin/ffmpeg'' # []"
    by (simp add: platformPaths_def)
  have miss: "homebrewOnly ''/usr/local/bin/ffmpeg'' = Inl ENOENT"
    by (simp add: homebrewOnly_def)
  then have pre: "\<forall>q \<in> set [''/usr/local/bin/ffmpeg'']. homebrewOnly q \<noteq> Inr ()"
    by simp
  have hit: "homebrewOnly ''/opt/homebrew/bin/ffmpeg'' = Inr ()"
    by (simp add: homebrewOnly_def)
  have n1: "noFFmpeg ''/usr/local/bin/ffmpeg'' = Inl ENOENT"
    and n2: "noFFmpeg ''/opt/homebrew/bin/ffmpeg'' = Inl ENOENT"
    by (simp_all add: noFFmpeg_def)
  have none: "\<forall>q \<in> set (platformPaths ''darwin''). noFFmpeg q \<noteq> Inr ()"
    by (simp add: noFFmpeg_def)
  from getFFmpegPath_first_existing [of "''darwin''" homebrewOnly] sp pre hit
  have a: "getFFmpegPath ''darwin'' homebrewOnly = Some ''/opt/homebrew/bin/ffmpeg''"
    by blast
  from getFFmpegPath_first_existing [of "''darwin''" noFFmpeg] none
  obtain p rest where "platformPaths ''darwin'' = p # rest"
    "getFFmpegPath ''darwin'' noFFmpeg = Some p" by blast
  with sp have b: "getFFmpegPath ''darwin'' noFFmpeg = Some ''/usr/local/bin/ffmpeg''"
    by simp
  from sp miss hit a n1 n2 b show ?thesis by blast
qed

subsection \<open>Defined results and the uncaught throw\<close>

lemma getLocalIPv4_nonempty: "getLocalIPv4 platform ifs \<noteq> []"
proof (cases "priorityPass platform ifs (PRIORITY_CONFIG platform)")
  case None
  then show ?thesis by (auto simp: getLocalIPv4_def split: option.splits)
next
  case (Some a)
  then show ?thesis
    using priorityPass_SomeD [OF Some] by (auto simp: getLocalIPv4_def)
qed

lemma getLocalIPv4_no_data:
  assumes "\<forall>(name, addresses) \<in> set ifs. findValidAddress addresses = None"
  shows "getLocalIPv4 platform ifs = ''0.0.0.0''"
proof (rule ccontr)
  assume "getLocalIPv4 platform ifs \<noteq> ''0.0.0.0''"
  with getLocalIPv4_provenance [of platform ifs] obtain name as r where
    "(name, Some as) \<in> set ifs" "r \<in> set as" "isUsable r" by blast
  moreover from this assms have "findValidAddress (Some as) = None" by blast
  ultimately show False
    by (auto simp: findValidAddress_def find_None_iff split: option.splits)
qed

text \<open>
  When the read returns a table and the platform is one \<open>os.platform()\<close> can return, the
  calls give what the functions of the table give.
\<close>

lemma getLocalIPv4_call_Inr:
  "platform \<notin> set objectPrototypeKeys \<Longrightarrow>
     getLocalIPv4_call platform (Inr ifs) = Inr (getLocalIPv4 platform ifs)"
  by (simp add: getLocalIPv4_call_def)

lemma getIPv4_call_Inr:
  "platform \<notin> set objectPrototypeKeys \<Longrightarrow>
     getIPv4_call ANNOUNCED_IP ENVIRONMENT IS_DOCKER platform (Inr ifs) =
       Inr (getIPv4 ANNOUNCED_IP ENVIRONMENT IS_DOCKER platform ifs)"
  by (simp add: getIPv4_call_def getIPv4_def getLocalIPv4_call_def)

text \<open>
  Claim C7 does not hold of the code. When \<open>os.networkInterfaces()\<close> throws, the read in
  \<open>getLocalIPv4\<close> is not inside a \<open>try\<close>: the call throws, and so does \<open>getIPv4\<close> with an
  empty override in development mode outside a container and in any mode other than
  production, where the claim promises the sentinel \<open>0.0.0.0\<close>. An empty table does give
  the sentinel, and \<open>getFFmpegPath\<close> does catch the throw of \<open>fs.accessSync\<close> and returns
  its first candidate.
\<close>

theorem networkInterfaces_throw_uncaught:
  "getLocalIPv4_call ''linux'' (Inl SystemError) = Inl SystemError
   \<and> getIPv4_call [] ''development'' False ''linux'' (Inl SystemError) = Inl SystemError
   \<and> getIPv4_call [] ''staging'' False ''linux'' (Inl SystemError) = Inl SystemError
   \<and> getLocalIPv4_call ''linux'' (Inr []) = Inr ''0.0.0.0''
   \<and> getFFmpegPath_call ''linux'' noFFmpeg = Inr (Some ''/usr/bin/ffmpeg'')"
  by code_simp

subsection \<open>The shape of the announced address\<close>






end
